theory Spec2Isabelle
  imports Main
begin

section \<open>The issue-comment table of the GitHub plugin\<close>

text \<open>
  This theory embeds \<^verbatim>\<open>github/table_github_issue_comment.go\<close>: the table
  declaration \<^verbatim>\<open>tableGitHubIssueComment\<close> and its list hydrate function
  \<^verbatim>\<open>tableGitHubRepositoryIssueCommentList\<close>, a cursor-pagination loop over a
  GraphQL client that streams every node of every page to the plugin host.

  The loop talks to three things it does not own: the GraphQL client
  (\<^verbatim>\<open>client.Query\<close>), the host's row sink (\<^verbatim>\<open>d.StreamListItem\<close>) and the host's
  budget query (\<^verbatim>\<open>d.RowsRemaining\<close>). They are inputs of the model (the record
  \<open>world\<close>), and what the loop does to them is recorded in a trace: the variables
  of every remote call it issues and every item it streams, in order.
\<close>

subsection \<open>Data\<close>

text \<open>
  A Go \<^verbatim>\<open>error\<close> value, identified by its message.
\<close>

datatype error = Error string

text \<open>
  The values stored in the \<^verbatim>\<open>variables\<close> map: \<^verbatim>\<open>githubv4.String\<close>,
  \<^verbatim>\<open>githubv4.Int\<close> (a Go \<^verbatim>\<open>int32\<close>, held as its signed value) and
  \<^verbatim>\<open>*githubv4.String\<close> (nullable).
\<close>

datatype gql_value = GString string | GInt int | GStringPtr "string option"

type_synonym variables = "string \<rightharpoonup> gql_value"

text \<open>
  The conversion \<^verbatim>\<open>githubv4.Int(n)\<close> of a Go \<^verbatim>\<open>int\<close> keeps the low 32 bits, read
  as a signed number.
\<close>

definition githubv4_Int :: "int \<Rightarrow> gql_value" where
  "githubv4_Int n = GInt ((n + 2 ^ 31) mod 2 ^ 32 - 2 ^ 31)"

text \<open>
  The part of \<^verbatim>\<open>models.PageInfo\<close> that the loop reads.
\<close>

record PageInfo =
  HasNextPage :: bool
  EndCursor :: string

text \<open>
  The anonymous \<^verbatim>\<open>query\<close> struct, one record per nesting level. The node type
  \<^verbatim>\<open>models.IssueComment\<close> is a parameter \<open>'c\<close>: the loop passes nodes on and never
  looks inside. The \<^verbatim>\<open>RateLimit\<close> field is only written to the debug log and is
  left out, as is the logging itself.
\<close>

record 'c Comments =
  PageInfo :: PageInfo
  TotalCount :: int
  Nodes :: "'c list"

record 'c Issue =
  Comments :: "'c Comments"

record 'c Repository =
  Issue :: "'c Issue"

record 'c query =
  Repository :: "'c Repository"

text \<open>
  A qualifier value (\<^verbatim>\<open>proto.QualValue\<close>) and its two getters. The generated getters
  answer the zero value on a nil receiver and on a value of another kind.
\<close>

datatype QualValue = StringValue string | Int64Value int

fun GetInt64Value :: "QualValue option \<Rightarrow> int" where
  "GetInt64Value (Some (Int64Value n)) = n"
| "GetInt64Value _ = 0"

fun GetStringValue :: "QualValue option \<Rightarrow> string" where
  "GetStringValue (Some (StringValue s)) = s"
| "GetStringValue _ = []"

text \<open>
  The fields of \<^verbatim>\<open>plugin.QueryData\<close> that the list function reads:
  \<^verbatim>\<open>d.EqualsQuals\<close> and \<^verbatim>\<open>d.QueryContext.Limit\<close> (a nullable \<^verbatim>\<open>int64\<close>).
\<close>

record QueryData =
  EqualsQuals :: "string \<rightharpoonup> QualValue"
  Limit :: "int option"

subsection \<open>The world outside the file\<close>

text \<open>
  \<^item> \<open>Query w k vars\<close> is what the \<open>k\<close>-th remote call of the request (counted from
    0) answers when issued with \<open>vars\<close>: an error, or the filled query struct.
  \<^item> \<open>ctxCancelled w n\<close> tells whether the context is cancelled at the moment
    \<^verbatim>\<open>RowsRemaining\<close> is asked after the \<open>n\<close>-th streamed item;
    \<open>rowsLeft w n\<close> is the row budget left at that moment.
  \<^item> \<open>parseRepoFullName\<close> and \<open>isNotFoundError\<close> are helpers of the plugin that
    live in another file; they are taken as given.
\<close>

record 'c world =
  Query :: "nat \<Rightarrow> variables \<Rightarrow> error + 'c query"
  ctxCancelled :: "nat \<Rightarrow> bool"
  rowsLeft :: "nat \<Rightarrow> int"
  parseRepoFullName :: "string \<Rightarrow> string \<times> string"
  isNotFoundError :: "string list \<Rightarrow> error \<Rightarrow> bool"

text \<open>
  What the loop has done so far.
\<close>

record 'c trace =
  calls :: "variables list"
  streamed :: "'c list"

text \<open>
  \<^verbatim>\<open>d.RowsRemaining(ctx)\<close>, asked after an item has been streamed. The comment at
  the call site says when it is 0: the context has been cancelled, or the limit
  has been hit.
\<close>

definition RowsRemaining :: "'c world \<Rightarrow> nat \<Rightarrow> int" where
  "RowsRemaining w n = (if ctxCancelled w n then 0 else rowsLeft w n)"

text \<open>
  The result pair \<^verbatim>\<open>(interface{}, error)\<close> together with the trace; \<open>None\<close> is
  \<^verbatim>\<open>nil\<close>.
\<close>

record 'c outcome =
  trace :: "'c trace"
  ret_value :: "'c list option"
  ret_error :: "error option"

subsection \<open>The list function\<close>

text \<open>
  The inner \<^verbatim>\<open>for _, comment := range ...Nodes\<close> loop: stream the item, then ask
  for the rows remaining; the flag says whether the function returned from inside
  the loop.
\<close>

fun stream_nodes :: "'c world \<Rightarrow> 'c trace \<Rightarrow> 'c list \<Rightarrow> 'c trace \<times> bool" where
  "stream_nodes w t [] = (t, False)"
| "stream_nodes w t (comment # rest) =
     (let t' = t\<lparr>streamed := streamed t @ [comment]\<rparr>
      in if RowsRemaining w (length (streamed t')) = 0 then (t', True)
         else stream_nodes w t' rest)"

text \<open>
  The outer \<^verbatim>\<open>for { ... }\<close> loop. It has no bound of its own, so not returning is
  the value \<open>None\<close>.
\<close>

partial_function (option) fetch_loop ::
  "'c world \<Rightarrow> 'c trace \<Rightarrow> variables \<Rightarrow> 'c outcome option" where
  "fetch_loop w t variables =
     (let t1 = t\<lparr>calls := calls t @ [variables]\<rparr>
      in case Query w (length (calls t)) variables of
           Inl err \<Rightarrow> Some \<lparr>trace = t1, ret_value = None, ret_error = Some err\<rparr>
         | Inr q \<Rightarrow>
             (case stream_nodes w t1 (Nodes (Comments (Issue (Repository q)))) of
                (t2, stopped) \<Rightarrow>
                  if stopped
                  then Some \<lparr>trace = t2, ret_value = None, ret_error = None\<rparr>
                  else if \<not> HasNextPage (PageInfo (Comments (Issue (Repository q))))
                  then Some \<lparr>trace = t2, ret_value = None, ret_error = None\<rparr>
                  else fetch_loop w t2
                         (variables(''cursor'' \<mapsto>
                            GStringPtr (Some (EndCursor (PageInfo (Comments (Issue (Repository q))))))))))"

declare fetch_loop.simps [code]

text \<open>
  Modelled from the spec: \<^verbatim>\<open>adjustPageSize\<close> is a helper of the plugin defined in
  another file; only its call \<^verbatim>\<open>adjustPageSize(100, d.QueryContext.Limit)\<close> is in
  this one. The spec has the page size "clamped to the remote API's maximum and to
  \<open>row_budget\<close> if that budget is smaller and known", and "a requested size of 0 or
  negative is rejected or clamped to a minimum of 1, never forwarded verbatim".
\<close>

definition adjustPageSize :: "int \<Rightarrow> int option \<Rightarrow> int" where
  "adjustPageSize pageSize limit =
     (case limit of
        None \<Rightarrow> pageSize
      | Some l \<Rightarrow> if l < 1 then 1 else if l < pageSize then l else pageSize)"

text \<open>
  Lines 57 to 83: the qualifiers are read, the page size is fixed and the
  \<^verbatim>\<open>variables\<close> map is built, with a nil cursor.
\<close>

definition initial_variables :: "'c world \<Rightarrow> QueryData \<Rightarrow> variables" where
  "initial_variables w d =
     (let quals = EqualsQuals d;
          issueNumber = GetInt64Value (quals ''number'');
          fullName = GetStringValue (quals ''repository_full_name'');
          (owner, repoName) = parseRepoFullName w fullName;
          pageSize = adjustPageSize 100 (Limit d)
      in [''owner'' \<mapsto> GString owner,
          ''name'' \<mapsto> GString repoName,
          ''issueNumber'' \<mapsto> githubv4_Int issueNumber,
          ''pageSize'' \<mapsto> githubv4_Int pageSize,
          ''cursor'' \<mapsto> GStringPtr None])"

definition tableGitHubRepositoryIssueCommentList ::
  "'c world \<Rightarrow> QueryData \<Rightarrow> 'c outcome option" where
  "tableGitHubRepositoryIssueCommentList w d =
     fetch_loop w \<lparr>calls = [], streamed = []\<rparr> (initial_variables w d)"

subsection \<open>The table\<close>

text \<open>
  \<^verbatim>\<open>plugin.ListConfig\<close> and \<^verbatim>\<open>plugin.Table\<close>, without the column list (pure data
  mapping).
\<close>

record 'c ListConfig =
  KeyColumns :: "string list"
  ShouldIgnoreError :: "error \<Rightarrow> bool"
  Hydrate :: "'c world \<Rightarrow> QueryData \<Rightarrow> 'c outcome option"

record 'c Table =
  Name :: string
  Description :: string
  List_config :: "'c ListConfig"

definition tableGitHubIssueComment :: "'c world \<Rightarrow> 'c Table" where
  "tableGitHubIssueComment w =
     \<lparr>Name = ''github_issue_comment'',
      Description = ''GitHub Issue Comments are the responses/comments on GitHub Issues.'',
      List_config =
        \<lparr>KeyColumns = [''repository_full_name'', ''number''],
         ShouldIgnoreError = isNotFoundError w [''404''],
         Hydrate = tableGitHubRepositoryIssueCommentList\<rparr>\<rparr>"

text \<open>
  Modelled from the spec: the caller of the list function, which applies the
  table's \<^verbatim>\<open>ShouldIgnoreError\<close> policy, is the plugin host and is not in the
  sources. The spec says that not-found conditions are "treated by the caller as an
  empty result rather than a hard error, per policy configured outside this
  component": the caller keeps the rows streamed so far and drops an error that the
  policy accepts. The result is the rows of the table and the error of the query.
\<close>

definition host_list ::
  "'c Table \<Rightarrow> 'c world \<Rightarrow> QueryData \<Rightarrow> ('c list \<times> error option) option" where
  "host_list tbl w d =
     (case Hydrate (List_config tbl) w d of
        None \<Rightarrow> None
      | Some r \<Rightarrow>
          Some (streamed (trace r),
                case ret_error r of
                  None \<Rightarrow> None
                | Some e \<Rightarrow> if ShouldIgnoreError (List_config tbl) e then None else Some e))"

subsection \<open>Notions used to state the properties\<close>

abbreviation page_nodes :: "'c query \<Rightarrow> 'c list" where
  "page_nodes q \<equiv> Nodes (Comments (Issue (Repository q)))"

abbreviation page_info :: "'c query \<Rightarrow> PageInfo" where
  "page_info q \<equiv> PageInfo (Comments (Issue (Repository q)))"

text \<open>
  The pages that the remote calls \<open>vs\<close>, issued as calls number \<open>k\<close>, \<open>k + 1\<close>, ...,
  were answered with; a failed call has no page.
\<close>

fun fetched :: "'c world \<Rightarrow> nat \<Rightarrow> variables list \<Rightarrow> 'c query list" where
  "fetched w k [] = []"
| "fetched w k (v # vs) =
     (case Query w k v of
        Inl e \<Rightarrow> fetched w (Suc k) vs
      | Inr q \<Rightarrow> q # fetched w (Suc k) vs)"

text \<open>
  \<open>stops w n xs\<close>: with \<open>n\<close> items streamed before, the consumer signals stop
  (\<^verbatim>\<open>RowsRemaining\<close> is 0) after one of the items \<open>xs\<close>. \<open>upto_stop w n xs\<close> is \<open>xs\<close>
  up to and including the first item after which it does.
\<close>

fun stops :: "'c world \<Rightarrow> nat \<Rightarrow> 'c list \<Rightarrow> bool" where
  "stops w n [] = False"
| "stops w n (x # xs) = (RowsRemaining w (Suc n) = 0 \<or> stops w (Suc n) xs)"

fun upto_stop :: "'c world \<Rightarrow> nat \<Rightarrow> 'c list \<Rightarrow> 'c list" where
  "upto_stop w n [] = []"
| "upto_stop w n (x # xs) =
     (if RowsRemaining w (Suc n) = 0 then [x] else x # upto_stop w (Suc n) xs)"

text \<open>
  The variables of call number \<open>i\<close> when the calls before it were answered with the
  pages \<open>qs\<close>: the initial variables, with the cursor of the page before.
\<close>

definition call_vars :: "variables \<Rightarrow> 'c query list \<Rightarrow> nat \<Rightarrow> variables" where
  "call_vars v0 qs i =
     (if i = 0 then v0
      else v0(''cursor'' \<mapsto> GStringPtr (Some (EndCursor (page_info (qs ! (i - 1)))))))"

subsection \<open>Example worlds\<close>

definition mk_page :: "'c list \<Rightarrow> bool \<Rightarrow> string \<Rightarrow> 'c query" where
  "mk_page ns hasNext cur =
     \<lparr>Repository = \<lparr>Issue = \<lparr>Comments =
        \<lparr>PageInfo = \<lparr>HasNextPage = hasNext, EndCursor = cur\<rparr>,
         TotalCount = int (length ns), Nodes = ns\<rparr>\<rparr>\<rparr>\<rparr>"

text \<open>
  A repository \<^verbatim>\<open>octo/demo\<close> whose issue 7 has four comments in two pages; a
  third call would fail. No cancellation, no limit on the rows.
\<close>

definition demo_query :: "nat \<Rightarrow> variables \<Rightarrow> error + nat query" where
  "demo_query k v =
     (if k = 0 then Inr (mk_page [11, 12] True ''c1'')
      else if k = 1 then Inr (mk_page [13, 14] False ''c2'')
      else Inl (Error ''502''))"

definition demo_world :: "nat world" where
  "demo_world =
     \<lparr>Query = demo_query,
      ctxCancelled = (\<lambda>n. False),
      rowsLeft = (\<lambda>n. 2147483647),
      parseRepoFullName = (\<lambda>s. (''octo'', ''demo'')),
      isNotFoundError = (\<lambda>codes e. e \<in> Error ` set codes)\<rparr>"

definition demo_data :: QueryData where
  "demo_data =
     \<lparr>EqualsQuals = [''repository_full_name'' \<mapsto> StringValue ''octo/demo'',
                     ''number'' \<mapsto> Int64Value 7],
      Limit = None\<rparr>"

text \<open>The same, with the second call failing.\<close>

definition failing_world :: "nat world" where
  "failing_world =
     demo_world\<lparr>Query := (\<lambda>k v. if k = 0 then demo_query k v else Inl (Error ''502''))\<rparr>"

text \<open>The same, with the repository missing: the first call answers 404.\<close>

definition missing_world :: "nat world" where
  "missing_world = demo_world\<lparr>Query := (\<lambda>k v. Inl (Error ''404''))\<rparr>"

text \<open>
  An issue with five comments in three pages, for a caller who wants three rows: the
  third row is in the middle of the second page, which has a next page.
\<close>

definition long_query :: "nat \<Rightarrow> variables \<Rightarrow> error + nat query" where
  "long_query k v =
     (if k = 0 then Inr (mk_page [11, 12] True ''c1'')
      else if k = 1 then Inr (mk_page [13, 14] True ''c2'')
      else Inr (mk_page [15] False ''c3''))"

definition budget_world :: "nat world" where
  "budget_world = demo_world\<lparr>Query := long_query, rowsLeft := (\<lambda>n. 3 - int n)\<rparr>"

text \<open>
  The issue with two pages, with the context cancelled once the first item has been
  streamed.
\<close>

definition cancelled_world :: "nat world" where
  "cancelled_world = demo_world\<lparr>ctxCancelled := (\<lambda>n. 1 \<le> n)\<rparr>"

text \<open>
  The issue with three pages again, with no limit and the context cancelled once the
  third item has been streamed.
\<close>

definition late_cancel_world :: "nat world" where
  "late_cancel_world = demo_world\<lparr>Query := long_query, ctxCancelled := (\<lambda>n. 3 \<le> n)\<rparr>"

text \<open>A remote collection of one page.\<close>

definition single_world :: "nat world" where
  "single_world = demo_world\<lparr>Query := (\<lambda>k v. Inr (mk_page [21, 22] False ''c9''))\<rparr>"

text \<open>The same query, with a limit of 0 rows.\<close>

definition zero_limit_data :: QueryData where
  "zero_limit_data = demo_data\<lparr>Limit := Some 0\<rparr>"

section \<open>Properties\<close>

subsection \<open>The inner loop and the consumer's stop signal\<close>

lemma stream_nodes_eq:
  "stream_nodes w t xs =
     (t\<lparr>streamed := streamed t @ upto_stop w (length (streamed t)) xs\<rparr>,
      stops w (length (streamed t)) xs)"
  by (induction xs arbitrary: t) (simp_all add: Let_def)

lemma stops_append:
  "stops w n (xs @ ys) = (stops w n xs \<or> stops w (n + length xs) ys)"
  by (induction xs arbitrary: n) simp_all

lemma upto_stop_id: "\<not> stops w n xs \<Longrightarrow> upto_stop w n xs = xs"
  by (induction xs arbitrary: n) simp_all

lemma upto_stop_append:
  "\<not> stops w n xs \<Longrightarrow> upto_stop w n (xs @ ys) = xs @ upto_stop w (n + length xs) ys"
  by (induction xs arbitrary: n) simp_all

lemma unlimited_never_stops: "\<forall>n. RowsRemaining w n \<noteq> 0 \<Longrightarrow> \<not> stops w n xs"
  by (induction xs arbitrary: n) simp_all

lemma stop_at:
  "j < length xs \<Longrightarrow> \<not> stops w n (take j xs) \<Longrightarrow> RowsRemaining w (n + Suc j) = 0 \<Longrightarrow>
   stops w n xs \<and> upto_stop w n xs = take (Suc j) xs"
proof (induction xs arbitrary: n j)
  case Nil
  then show ?case by simp
next
  case (Cons x xs)
  show ?case
  proof (cases j)
    case 0
    with Cons.prems show ?thesis by simp
  next
    case (Suc i)
    with Cons.prems have "i < length xs" "\<not> stops w (Suc n) (take i xs)"
      "RowsRemaining w (Suc n + Suc i) = 0" "RowsRemaining w (Suc n) \<noteq> 0"
      by simp_all
    with Cons.IH [of i "Suc n"] Suc show ?thesis by simp
  qed
qed

lemma fetched_append:
  "fetched w k (vs @ [v]) =
     fetched w k vs @ (case Query w (k + length vs) v of Inl e \<Rightarrow> [] | Inr q \<Rightarrow> [q])"
  by (induction vs arbitrary: k) (simp_all split: sum.splits)

lemma fetched_all:
  "length vs = length qs \<Longrightarrow> \<forall>i<length qs. Query w (k + i) (vs ! i) = Inr (qs ! i) \<Longrightarrow>
   fetched w k vs = qs"
proof (induction vs arbitrary: k qs)
  case Nil
  then show ?case by simp
next
  case (Cons v vs)
  then obtain q qs' where qs: "qs = q # qs'" by (cases qs) auto
  with Cons.prems(2) have "Query w k v = Inr q" by fastforce
  moreover have "\<forall>i<length qs'. Query w (Suc k + i) (vs ! i) = Inr (qs' ! i)"
  proof (intro allI impI)
    fix i assume "i < length qs'"
    with Cons.prems(2) qs have "Query w (k + Suc i) ((v # vs) ! Suc i) = Inr ((q # qs') ! Suc i)"
      by (metis Suc_less_eq length_Cons)
    then show "Query w (Suc k + i) (vs ! i) = Inr (qs' ! i)" by simp
  qed
  ultimately show ?case
    using Cons.IH [of qs' "Suc k"] Cons.prems(1) qs by simp
qed

subsection \<open>One iteration of the outer loop\<close>

lemma trace_upd [simp]: "t\<lparr>calls := a, streamed := b\<rparr> = \<lparr>calls = a, streamed = b\<rparr>"
  by simp

lemma trace_eta [simp]: "\<lparr>calls = calls t, streamed = streamed t\<rparr> = t"
  by simp

lemma fetch_loop_error:
  "Query w (length (calls t)) v = Inl e \<Longrightarrow>
   fetch_loop w t v =
     Some \<lparr>trace = \<lparr>calls = calls t @ [v], streamed = streamed t\<rparr>,
           ret_value = None, ret_error = Some e\<rparr>"
  by (subst fetch_loop.simps) simp

lemma fetch_loop_stop:
  "Query w (length (calls t)) v = Inr q \<Longrightarrow> stops w (length (streamed t)) (page_nodes q) \<Longrightarrow>
   fetch_loop w t v =
     Some \<lparr>trace = \<lparr>calls = calls t @ [v],
                     streamed = streamed t @ upto_stop w (length (streamed t)) (page_nodes q)\<rparr>,
           ret_value = None, ret_error = None\<rparr>"
  by (subst fetch_loop.simps) (simp add: stream_nodes_eq)

lemma fetch_loop_last:
  "Query w (length (calls t)) v = Inr q \<Longrightarrow> \<not> stops w (length (streamed t)) (page_nodes q) \<Longrightarrow>
   \<not> HasNextPage (page_info q) \<Longrightarrow>
   fetch_loop w t v =
     Some \<lparr>trace = \<lparr>calls = calls t @ [v], streamed = streamed t @ page_nodes q\<rparr>,
           ret_value = None, ret_error = None\<rparr>"
  by (subst fetch_loop.simps) (simp add: stream_nodes_eq upto_stop_id)

lemma fetch_loop_next:
  "Query w (length (calls t)) v = Inr q \<Longrightarrow> \<not> stops w (length (streamed t)) (page_nodes q) \<Longrightarrow>
   HasNextPage (page_info q) \<Longrightarrow>
   fetch_loop w t v =
     fetch_loop w \<lparr>calls = calls t @ [v], streamed = streamed t @ page_nodes q\<rparr>
       (v(''cursor'' \<mapsto> GStringPtr (Some (EndCursor (page_info q)))))"
  by (subst fetch_loop.simps) (simp add: stream_nodes_eq upto_stop_id)

subsection \<open>Several iterations\<close>

lemma call_vars_0: "call_vars v qs 0 = v"
  by (simp add: call_vars_def)

lemma call_vars_Cons:
  "call_vars v (q # qs) (Suc i) =
     call_vars (v(''cursor'' \<mapsto> GStringPtr (Some (EndCursor (page_info q))))) qs i"
  by (cases i) (simp_all add: call_vars_def)

lemma fetch_loop_pages:
  assumes "\<forall>i<length qs. Query w (length (calls t) + i) (call_vars v qs i) = Inr (qs ! i)
             \<and> HasNextPage (page_info (qs ! i))"
    and "\<not> stops w (length (streamed t)) (concat (map page_nodes qs))"
  shows "fetch_loop w t v =
           fetch_loop w
             \<lparr>calls = calls t @ map (call_vars v qs) [0..<length qs],
              streamed = streamed t @ concat (map page_nodes qs)\<rparr>
             (call_vars v qs (length qs))"
  using assms
proof (induction qs arbitrary: t v)
  case Nil
  then show ?case by (simp add: call_vars_0)
next
  case (Cons q qs)
  let ?v' = "v(''cursor'' \<mapsto> GStringPtr (Some (EndCursor (page_info q))))"
  let ?t' = "\<lparr>calls = calls t @ [v], streamed = streamed t @ page_nodes q\<rparr>"
  from Cons.prems(1) have q0: "Query w (length (calls t)) v = Inr q" "HasNextPage (page_info q)"
    by (auto simp: call_vars_0)
  from Cons.prems(2) have ns: "\<not> stops w (length (streamed t)) (page_nodes q)"
    and ns': "\<not> stops w (length (streamed ?t')) (concat (map page_nodes qs))"
    by (simp_all add: stops_append)
  have rest: "\<forall>i<length qs. Query w (length (calls ?t') + i) (call_vars ?v' qs i) = Inr (qs ! i)
             \<and> HasNextPage (page_info (qs ! i))"
  proof (intro allI impI)
    fix i assume "i < length qs"
    then have "Suc i < length (q # qs)" by simp
    with Cons.prems(1) have "Query w (length (calls t) + Suc i) (call_vars v (q # qs) (Suc i)) = Inr ((q # qs) ! Suc i)
             \<and> HasNextPage (page_info ((q # qs) ! Suc i))" by blast
    then show "Query w (length (calls ?t') + i) (call_vars ?v' qs i) = Inr (qs ! i)
             \<and> HasNextPage (page_info (qs ! i))"
      by (simp add: call_vars_Cons)
  qed
  have "fetch_loop w t v = fetch_loop w ?t' ?v'"
    by (rule fetch_loop_next [OF q0(1) ns q0(2)])
  also have "\<dots> = fetch_loop w
             \<lparr>calls = calls ?t' @ map (call_vars ?v' qs) [0..<length qs],
              streamed = streamed ?t' @ concat (map page_nodes qs)\<rparr>
             (call_vars ?v' qs (length qs))"
    by (rule Cons.IH [OF rest ns'])
  finally show ?case
    by (simp add: map_upt_Suc call_vars_Cons call_vars_0 del: upt_Suc)
qed

subsection \<open>What holds of every run that returns\<close>

lemma fetch_loop_streamed:
  assumes "fetch_loop w t v = Some r"
  shows "streamed t = concat (map page_nodes (fetched w 0 (calls t))) \<longrightarrow>
         \<not> stops w 0 (streamed t) \<longrightarrow>
         streamed (trace r) =
           upto_stop w 0 (concat (map page_nodes (fetched w 0 (calls (trace r)))))"
  using assms
proof (induction rule: fetch_loop.raw_induct [rotated 1, consumes 1, case_names step])
  case (step loop w t v r)
  note 1 = step
  show ?case
  proof (intro impI)
    assume inv: "streamed t = concat (map page_nodes (fetched w 0 (calls t)))"
      and ns: "\<not> stops w 0 (streamed t)"
    show "streamed (trace r) =
           upto_stop w 0 (concat (map page_nodes (fetched w 0 (calls (trace r)))))"
    proof (cases "Query w (length (calls t)) v")
      case (Inl e)
      with 1(2) inv ns show ?thesis
        by (auto simp: fetched_append upto_stop_id)
    next
      case (Inr q)
      show ?thesis
      proof (cases "stops w (length (streamed t)) (page_nodes q)")
        case True
        with 1(2) Inr inv ns show ?thesis
          by (auto simp: stream_nodes_eq fetched_append upto_stop_append)
      next
        case False
        show ?thesis
        proof (cases "HasNextPage (page_info q)")
          case hn: False
          with 1(2) Inr inv ns False show ?thesis
            by (auto simp: stream_nodes_eq fetched_append upto_stop_id stops_append)
        next
          case hn: True
          let ?t' = "\<lparr>calls = calls t @ [v], streamed = streamed t @ page_nodes q\<rparr>"
          from 1(2) Inr False hn
          have "loop w ?t' (v(''cursor'' \<mapsto> GStringPtr (Some (EndCursor (page_info q))))) = Some r"
            by (simp add: stream_nodes_eq upto_stop_id)
          from 1(1) [OF this] inv ns False Inr show ?thesis
            by (simp add: fetched_append stops_append)
        qed
      qed
    qed
  qed
qed


lemma fetch_loop_frame:
  assumes "fetch_loop w t v = Some r"
  shows "(\<forall>u\<in>set (calls t). \<forall>k. k \<noteq> ''cursor'' \<longrightarrow> u k = v0 k) \<longrightarrow>
         (\<forall>k. k \<noteq> ''cursor'' \<longrightarrow> v k = v0 k) \<longrightarrow>
         (\<forall>u\<in>set (calls (trace r)). \<forall>k. k \<noteq> ''cursor'' \<longrightarrow> u k = v0 k)"
  using assms
proof (induction rule: fetch_loop.raw_induct [rotated 1, consumes 1, case_names step])
  case (step loop w t v r)
  show ?case
  proof (intro impI)
    assume old: "\<forall>u\<in>set (calls t). \<forall>k. k \<noteq> ''cursor'' \<longrightarrow> u k = v0 k"
      and cur: "\<forall>k. k \<noteq> ''cursor'' \<longrightarrow> v k = v0 k"
    show "\<forall>u\<in>set (calls (trace r)). \<forall>k. k \<noteq> ''cursor'' \<longrightarrow> u k = v0 k"
    proof (cases "Query w (length (calls t)) v")
      case (Inl e)
      with step(2) old cur show ?thesis by auto
    next
      case (Inr q)
      let ?t' = "\<lparr>calls = calls t @ [v],
                  streamed = streamed t @ upto_stop w (length (streamed t)) (page_nodes q)\<rparr>"
      let ?v' = "v(''cursor'' \<mapsto> GStringPtr (Some (EndCursor (page_info q))))"
      have old': "\<forall>u\<in>set (calls ?t'). \<forall>k. k \<noteq> ''cursor'' \<longrightarrow> u k = v0 k"
        using old cur by auto
      have cur': "\<forall>k. k \<noteq> ''cursor'' \<longrightarrow> ?v' k = v0 k"
        using cur by simp
      show ?thesis
      proof (cases "stops w (length (streamed t)) (page_nodes q) \<or> \<not> HasNextPage (page_info q)")
        case True
        with step(2) Inr have "trace r = ?t'"
          by (auto simp: stream_nodes_eq Let_def split: if_splits)
        with old' show ?thesis by simp
      next
        case False
        with step(2) Inr have "loop w ?t' ?v' = Some r"
          by (simp add: stream_nodes_eq Let_def)
        from step(1) [OF this] old' cur' show ?thesis by blast
      qed
    qed
  qed
qed

lemma fetch_loop_value:
  assumes "fetch_loop w t v = Some r"
  shows "ret_value r = None"
  using assms
proof (induction rule: fetch_loop.raw_induct [rotated 1, consumes 1, case_names step])
  case (step loop w t v r)
  then show ?case
    by (auto simp: Let_def split: sum.splits prod.splits if_splits)
qed

text \<open>
  Every call of a run was answered with a page, except the last call of a run that
  returns an error: that call answered the error returned.
\<close>

lemma fetch_loop_errors:
  assumes "fetch_loop w t v = Some r"
  shows "length (fetched w 0 (calls t)) = length (calls t) \<longrightarrow>
         (case ret_error r of
            None \<Rightarrow> length (fetched w 0 (calls (trace r))) = length (calls (trace r))
          | Some e \<Rightarrow>
              calls (trace r) \<noteq> []
              \<and> Query w (length (calls (trace r)) - 1) (last (calls (trace r))) = Inl e
              \<and> length (fetched w 0 (calls (trace r))) = length (calls (trace r)) - 1)"
  using assms
proof (induction rule: fetch_loop.raw_induct [rotated 1, consumes 1, case_names step])
  case (step loop w t v r)
  show ?case
  proof (intro impI)
    assume inv: "length (fetched w 0 (calls t)) = length (calls t)"
    show "case ret_error r of
            None \<Rightarrow> length (fetched w 0 (calls (trace r))) = length (calls (trace r))
          | Some e \<Rightarrow>
              calls (trace r) \<noteq> []
              \<and> Query w (length (calls (trace r)) - 1) (last (calls (trace r))) = Inl e
              \<and> length (fetched w 0 (calls (trace r))) = length (calls (trace r)) - 1"
    proof (cases "Query w (length (calls t)) v")
      case (Inl e)
      with step(2) inv show ?thesis
        by (auto simp: fetched_append)
    next
      case (Inr q)
      let ?t' = "\<lparr>calls = calls t @ [v],
                  streamed = streamed t @ upto_stop w (length (streamed t)) (page_nodes q)\<rparr>"
      have inv': "length (fetched w 0 (calls ?t')) = length (calls ?t')"
        using inv Inr by (simp add: fetched_append)
      show ?thesis
      proof (cases "stops w (length (streamed t)) (page_nodes q) \<or> \<not> HasNextPage (page_info q)")
        case True
        with step(2) Inr have "trace r = ?t'" "ret_error r = None"
          by (auto simp: stream_nodes_eq Let_def split: if_splits)
        with inv' show ?thesis by simp
      next
        case False
        with step(2) Inr
        have "loop w ?t' (v(''cursor'' \<mapsto> GStringPtr (Some (EndCursor (page_info q))))) = Some r"
          by (simp add: stream_nodes_eq Let_def)
        from step(1) [OF this] inv' show ?thesis by blast
      qed
    qed
  qed
qed

subsection \<open>The list function on a run of pages\<close>

text \<open>
  The whole run, when the first calls are answered with the pages \<open>qs\<close>, each with a
  next page, and the consumer does not stop within them.
\<close>

lemma list_pages:
  assumes "\<forall>i<length qs. Query w i (call_vars (initial_variables w d) qs i) = Inr (qs ! i)
             \<and> HasNextPage (page_info (qs ! i))"
    and "\<not> stops w 0 (concat (map page_nodes qs))"
  shows "tableGitHubRepositoryIssueCommentList w d =
           fetch_loop w
             \<lparr>calls = map (call_vars (initial_variables w d) qs) [0..<length qs],
              streamed = concat (map page_nodes qs)\<rparr>
             (call_vars (initial_variables w d) qs (length qs))"
  unfolding tableGitHubRepositoryIssueCommentList_def
  using fetch_loop_pages [of qs w "\<lparr>calls = [], streamed = []\<rparr>" "initial_variables w d"] assms
  by simp

lemma list_stop_at:
  assumes pages: "\<forall>i<length qs. Query w i (call_vars (initial_variables w d) qs i) = Inr (qs ! i)
             \<and> HasNextPage (page_info (qs ! i))"
    and page: "Query w (length qs) (call_vars (initial_variables w d) qs (length qs)) = Inr q"
    and j: "j < length (page_nodes q)"
    and before: "\<not> stops w 0 (concat (map page_nodes qs) @ take j (page_nodes q))"
    and stop: "RowsRemaining w (length (concat (map page_nodes qs)) + Suc j) = 0"
  shows "tableGitHubRepositoryIssueCommentList w d =
           Some \<lparr>trace =
                   \<lparr>calls = map (call_vars (initial_variables w d) qs) [0..<Suc (length qs)],
                    streamed = concat (map page_nodes qs) @ take (Suc j) (page_nodes q)\<rparr>,
                 ret_value = None, ret_error = None\<rparr>"
proof -
  let ?n = "length (concat (map page_nodes qs))"
  from before have ns: "\<not> stops w 0 (concat (map page_nodes qs))"
    and nt: "\<not> stops w ?n (take j (page_nodes q))"
    by (simp_all add: stops_append)
  from stop_at [OF j nt stop]
  have st: "stops w ?n (page_nodes q)" "upto_stop w ?n (page_nodes q) = take (Suc j) (page_nodes q)"
    by simp_all
  show ?thesis
    unfolding list_pages [OF pages ns]
    using fetch_loop_stop [of w "\<lparr>calls = map (call_vars (initial_variables w d) qs) [0..<length qs],
              streamed = concat (map page_nodes qs)\<rparr>" _ q] page st
    by simp
qed

subsection \<open>The variables of the calls\<close>

lemma githubv4_Int_small: "- 2147483648 \<le> n \<Longrightarrow> n < 2147483648 \<Longrightarrow> githubv4_Int n = GInt n"
  by (simp add: githubv4_Int_def)

lemma adjustPageSize_range: "1 \<le> m \<Longrightarrow> 1 \<le> adjustPageSize m l \<and> adjustPageSize m l \<le> m"
  by (simp add: adjustPageSize_def split: option.splits)

lemma initial_pageSize:
  "initial_variables w d ''pageSize'' = Some (GInt (adjustPageSize 100 (Limit d)))"
proof -
  have "1 \<le> adjustPageSize 100 (Limit d) \<and> adjustPageSize 100 (Limit d) \<le> 100"
    by (rule adjustPageSize_range) simp
  then have "githubv4_Int (adjustPageSize 100 (Limit d)) = GInt (adjustPageSize 100 (Limit d))"
    by (intro githubv4_Int_small) simp_all
  then show ?thesis
    by (simp add: initial_variables_def Let_def split: prod.splits)
qed

lemma list_frame:
  assumes "tableGitHubRepositoryIssueCommentList w d = Some r"
    and "v \<in> set (calls (trace r))" and "k \<noteq> ''cursor''"
  shows "v k = initial_variables w d k"
  using fetch_loop_frame [of w "\<lparr>calls = [], streamed = []\<rparr>" "initial_variables w d" r
      "initial_variables w d"] assms
  by (simp add: tableGitHubRepositoryIssueCommentList_def)

lemma returned_error_is_last_call:
  assumes "tableGitHubRepositoryIssueCommentList w d = Some r" and "ret_error r = Some e"
  shows "calls (trace r) \<noteq> []
         \<and> Query w (length (calls (trace r)) - 1) (last (calls (trace r))) = Inl e
         \<and> length (fetched w 0 (calls (trace r))) = length (calls (trace r)) - 1"
  using fetch_loop_errors [of w "\<lparr>calls = [], streamed = []\<rparr>" "initial_variables w d" r] assms
  by (simp add: tableGitHubRepositoryIssueCommentList_def)

lemma no_error_all_calls_answered:
  assumes "tableGitHubRepositoryIssueCommentList w d = Some r" and "ret_error r = None"
  shows "length (fetched w 0 (calls (trace r))) = length (calls (trace r))"
  using fetch_loop_errors [of w "\<lparr>calls = [], streamed = []\<rparr>" "initial_variables w d" r] assms
  by (simp add: tableGitHubRepositoryIssueCommentList_def)

subsection \<open>The example worlds, run\<close>

lemmas world_defs = demo_world_def failing_world_def missing_world_def budget_world_def
  cancelled_world_def late_cancel_world_def single_world_def demo_query_def long_query_def
  mk_page_def RowsRemaining_def

lemma demo_run:
  "tableGitHubRepositoryIssueCommentList demo_world demo_data =
     Some \<lparr>trace = \<lparr>calls = [initial_variables demo_world demo_data,
                              (initial_variables demo_world demo_data)
                                (''cursor'' \<mapsto> GStringPtr (Some ''c1''))],
                     streamed = [11, 12, 13, 14]\<rparr>,
           ret_value = None, ret_error = None\<rparr>"
  by (simp add: tableGitHubRepositoryIssueCommentList_def fetch_loop.simps world_defs)

lemma failing_run:
  "tableGitHubRepositoryIssueCommentList failing_world demo_data =
     Some \<lparr>trace = \<lparr>calls = [initial_variables failing_world demo_data,
                              (initial_variables failing_world demo_data)
                                (''cursor'' \<mapsto> GStringPtr (Some ''c1''))],
                     streamed = [11, 12]\<rparr>,
           ret_value = None, ret_error = Some (Error ''502'')\<rparr>"
  by (simp add: tableGitHubRepositoryIssueCommentList_def fetch_loop.simps world_defs)

lemma budget_run:
  "tableGitHubRepositoryIssueCommentList budget_world demo_data =
     Some \<lparr>trace = \<lparr>calls = [initial_variables budget_world demo_data,
                              (initial_variables budget_world demo_data)
                                (''cursor'' \<mapsto> GStringPtr (Some ''c1''))],
                     streamed = [11, 12, 13]\<rparr>,
           ret_value = None, ret_error = None\<rparr>"
  by (simp add: tableGitHubRepositoryIssueCommentList_def fetch_loop.simps world_defs)

lemma cancelled_run:
  "tableGitHubRepositoryIssueCommentList cancelled_world demo_data =
     Some \<lparr>trace = \<lparr>calls = [initial_variables cancelled_world demo_data], streamed = [11]\<rparr>,
           ret_value = None, ret_error = None\<rparr>"
  by (simp add: tableGitHubRepositoryIssueCommentList_def fetch_loop.simps world_defs)

lemma zero_limit_run:
  "tableGitHubRepositoryIssueCommentList demo_world zero_limit_data =
     Some \<lparr>trace = \<lparr>calls = [initial_variables demo_world zero_limit_data,
                              (initial_variables demo_world zero_limit_data)
                                (''cursor'' \<mapsto> GStringPtr (Some ''c1''))],
                     streamed = [11, 12, 13, 14]\<rparr>,
           ret_value = None, ret_error = None\<rparr>"
  by (simp add: tableGitHubRepositoryIssueCommentList_def fetch_loop.simps world_defs)

section \<open>The claims\<close>

text \<open>
  C1. For every fetch request, the records passed to the stream consumer are the
  concatenation of the nodes of the fetched pages, in page order and, within a
  page, in the order the server returned them, up to the point of a remote error or
  of the consumer's stop signal: the streamed items are the nodes of the pages that
  the issued calls were answered with, cut after the first item at which
  \<^verbatim>\<open>RowsRemaining\<close> is 0.
\<close>

theorem streamed_is_concatenation_of_pages:
  assumes "tableGitHubRepositoryIssueCommentList w d = Some r"
  shows "streamed (trace r) =
           upto_stop w 0 (concat (map page_nodes (fetched w 0 (calls (trace r)))))"
  using fetch_loop_streamed [of w "\<lparr>calls = [], streamed = []\<rparr>" "initial_variables w d" r] assms
  by (simp add: tableGitHubRepositoryIssueCommentList_def)

theorem streamed_is_concatenation_of_pages_witness:
  "tableGitHubRepositoryIssueCommentList demo_world demo_data =
     Some \<lparr>trace = \<lparr>calls = [initial_variables demo_world demo_data,
                              (initial_variables demo_world demo_data)
                                (''cursor'' \<mapsto> GStringPtr (Some ''c1''))],
                     streamed = [11, 12, 13, 14]\<rparr>,
           ret_value = None, ret_error = None\<rparr>
   \<and> [11, 12, 13, 14] =
       upto_stop demo_world 0
         (concat (map page_nodes
            (fetched demo_world 0
               [initial_variables demo_world demo_data,
                (initial_variables demo_world demo_data)
                  (''cursor'' \<mapsto> GStringPtr (Some ''c1''))])))"
  using streamed_is_concatenation_of_pages [OF demo_run] demo_run by simp

text \<open>
  C2. When the remote collection has exactly two pages, the first reporting
  \<^verbatim>\<open>hasNextPage = true\<close> with end cursor \<open>c1\<close> and the second reporting
  \<^verbatim>\<open>hasNextPage = false\<close>, a fetch with an unlimited row budget issues exactly two
  remote calls, the first with a nil cursor and the second with the cursor \<open>c1\<close>
  as it was returned, streams every record of both pages, and returns no error.
\<close>

theorem two_pages_two_calls:
  assumes "Query w 0 (initial_variables w d) = Inr q0"
    and "HasNextPage (page_info q0)"
    and "EndCursor (page_info q0) = c1"
    and "Query w 1 ((initial_variables w d)(''cursor'' \<mapsto> GStringPtr (Some c1))) = Inr q1"
    and "\<not> HasNextPage (page_info q1)"
    and "\<forall>n. RowsRemaining w n \<noteq> 0"
  shows "tableGitHubRepositoryIssueCommentList w d =
           Some \<lparr>trace =
                   \<lparr>calls = [initial_variables w d,
                             (initial_variables w d)(''cursor'' \<mapsto> GStringPtr (Some c1))],
                    streamed = page_nodes q0 @ page_nodes q1\<rparr>,
                 ret_value = None, ret_error = None\<rparr>
         \<and> initial_variables w d ''cursor'' = Some (GStringPtr None)
         \<and> ((initial_variables w d)(''cursor'' \<mapsto> GStringPtr (Some c1))) ''cursor''
             = Some (GStringPtr (Some c1))"
proof -
  let ?v0 = "initial_variables w d"
  let ?t0 = "\<lparr>calls = [], streamed = []\<rparr> :: 'a trace"
  let ?t1 = "\<lparr>calls = [?v0], streamed = page_nodes q0\<rparr>"
  have "fetch_loop w ?t0 ?v0 = fetch_loop w ?t1 (?v0(''cursor'' \<mapsto> GStringPtr (Some c1)))"
    using fetch_loop_next [of w ?t0 ?v0 q0] assms(1,2,3,6)
    by (simp add: unlimited_never_stops)
  also have "\<dots> = Some \<lparr>trace =
                   \<lparr>calls = [?v0, ?v0(''cursor'' \<mapsto> GStringPtr (Some c1))],
                    streamed = page_nodes q0 @ page_nodes q1\<rparr>,
                 ret_value = None, ret_error = None\<rparr>"
    using fetch_loop_last [of w ?t1 "?v0(''cursor'' \<mapsto> GStringPtr (Some c1))" q1] assms(4,5,6)
    by (simp add: unlimited_never_stops)
  finally show ?thesis
    by (simp add: tableGitHubRepositoryIssueCommentList_def)
      (simp add: initial_variables_def Let_def split: prod.splits)
qed

theorem two_pages_two_calls_witness:
  "tableGitHubRepositoryIssueCommentList demo_world demo_data =
     Some \<lparr>trace =
             \<lparr>calls = [initial_variables demo_world demo_data,
                       (initial_variables demo_world demo_data)
                         (''cursor'' \<mapsto> GStringPtr (Some ''c1''))],
              streamed = [11, 12, 13, 14]\<rparr>,
           ret_value = None, ret_error = None\<rparr>
   \<and> initial_variables demo_world demo_data ''cursor'' = Some (GStringPtr None)"
proof -
  let ?v0 = "initial_variables demo_world demo_data"
  have p0: "Query demo_world 0 ?v0 = Inr (mk_page [11, 12] True ''c1'')"
    by (simp add: demo_world_def demo_query_def)
  have n0: "HasNextPage (page_info (mk_page [11, 12 :: nat] True ''c1''))"
    and c0: "EndCursor (page_info (mk_page [11, 12 :: nat] True ''c1'')) = ''c1''"
    by (simp_all add: mk_page_def)
  have p1: "Query demo_world 1 (?v0(''cursor'' \<mapsto> GStringPtr (Some ''c1'')))
              = Inr (mk_page [13, 14] False ''c2'')"
    by (simp add: demo_world_def demo_query_def)
  have n1: "\<not> HasNextPage (page_info (mk_page [13, 14 :: nat] False ''c2''))"
    by (simp add: mk_page_def)
  have unl: "\<forall>n. RowsRemaining demo_world n \<noteq> 0"
    by (simp add: RowsRemaining_def demo_world_def)
  from two_pages_two_calls [OF p0 n0 c0 p1 n1 unl] show ?thesis
    by (simp add: mk_page_def)
qed

text \<open>
  C3. If the remote call for a page fails, the fetch aborts at once and returns that
  error as it is. The run reaches a failing call exactly when the calls before it
  were answered with pages \<open>qs\<close> that each have a next page and the consumer did not
  stop within them; then the records of those pages have been streamed, each once
  and in order, the failing call is the last call issued, and the error returned is
  the one the call answered.
\<close>

theorem remote_error_aborts:
  assumes "\<forall>i<length qs. Query w i (call_vars (initial_variables w d) qs i) = Inr (qs ! i)
             \<and> HasNextPage (page_info (qs ! i))"
    and "\<not> stops w 0 (concat (map page_nodes qs))"
    and "Query w (length qs) (call_vars (initial_variables w d) qs (length qs)) = Inl e"
  shows "\<exists>r. tableGitHubRepositoryIssueCommentList w d = Some r
           \<and> ret_error r = Some e \<and> ret_value r = None
           \<and> calls (trace r) = map (call_vars (initial_variables w d) qs) [0..<Suc (length qs)]
           \<and> fetched w 0 (calls (trace r)) = qs
           \<and> streamed (trace r) = concat (map page_nodes qs)
           \<and> (distinct (concat (map page_nodes qs)) \<longrightarrow> distinct (streamed (trace r)))"
proof -
  let ?cv = "call_vars (initial_variables w d) qs"
  let ?t = "\<lparr>calls = map ?cv [0..<length qs], streamed = concat (map page_nodes qs)\<rparr>"
  have "tableGitHubRepositoryIssueCommentList w d = fetch_loop w ?t (?cv (length qs))"
    by (rule list_pages [OF assms(1,2)])
  also have "\<dots> = Some \<lparr>trace = \<lparr>calls = map ?cv [0..<Suc (length qs)],
                                   streamed = concat (map page_nodes qs)\<rparr>,
                         ret_value = None, ret_error = Some e\<rparr>"
    using fetch_loop_error [of w ?t "?cv (length qs)" e] assms(3) by simp
  finally have run: "tableGitHubRepositoryIssueCommentList w d =
      Some \<lparr>trace = \<lparr>calls = map ?cv [0..<Suc (length qs)],
                      streamed = concat (map page_nodes qs)\<rparr>,
            ret_value = None, ret_error = Some e\<rparr>" .
  have "fetched w 0 (map ?cv [0..<length qs]) = qs"
    using assms(1) by (intro fetched_all) simp_all
  with assms(3) have "fetched w 0 (map ?cv [0..<Suc (length qs)]) = qs"
    by (simp add: fetched_append)
  with run show ?thesis
    by (simp del: upt_Suc)
qed

theorem remote_error_aborts_witness:
  "\<exists>r. tableGitHubRepositoryIssueCommentList failing_world demo_data = Some r
     \<and> ret_error r = Some (Error ''502'') \<and> ret_value r = None
     \<and> calls (trace r) =
         [initial_variables failing_world demo_data,
          (initial_variables failing_world demo_data)(''cursor'' \<mapsto> GStringPtr (Some ''c1''))]
     \<and> streamed (trace r) = [11, 12]
     \<and> distinct (streamed (trace r))"
proof -
  let ?v0 = "initial_variables failing_world demo_data"
  let ?qs = "[mk_page [11, 12 :: nat] True ''c1'']"
  have pages: "\<forall>i<length ?qs. Query failing_world i (call_vars ?v0 ?qs i) = Inr (?qs ! i)
             \<and> HasNextPage (page_info (?qs ! i))"
    by (simp add: failing_world_def demo_world_def demo_query_def mk_page_def)
  have nostop: "\<not> stops failing_world 0 (concat (map page_nodes ?qs))"
    by (simp add: world_defs)
  have fail: "Query failing_world (length ?qs) (call_vars ?v0 ?qs (length ?qs)) = Inl (Error ''502'')"
    by (simp add: failing_world_def demo_world_def)
  from remote_error_aborts [OF pages nostop fail]
  obtain r where "tableGitHubRepositoryIssueCommentList failing_world demo_data = Some r"
    "ret_error r = Some (Error ''502'')" "ret_value r = None"
    "calls (trace r) = map (call_vars ?v0 ?qs) [0..<Suc (length ?qs)]"
    "streamed (trace r) = concat (map page_nodes ?qs)"
    by blast
  then show ?thesis
    by (simp add: mk_page_def call_vars_def)
qed

text \<open>
  C4. If the consumer's stop signal (\<^verbatim>\<open>RowsRemaining\<close> is 0) is observed after the
  \<open>N\<close>-th streamed record, no remote call is issued after the one for the page
  holding that record, and the fetch returns without an error. Here the record is
  number \<open>j\<close> (from 0) of the page \<open>q\<close> that follows the pages \<open>qs\<close>, so that \<open>N\<close> is
  the number of records of \<open>qs\<close> plus \<open>j + 1\<close>; whether \<open>q\<close> has a next page does
  not matter. The run streams exactly \<open>N\<close> records and its last call is the one
  that fetched \<open>q\<close>.
\<close>

theorem budget_stop_is_normal_exit:
  assumes "\<forall>i<length qs. Query w i (call_vars (initial_variables w d) qs i) = Inr (qs ! i)
             \<and> HasNextPage (page_info (qs ! i))"
    and "Query w (length qs) (call_vars (initial_variables w d) qs (length qs)) = Inr q"
    and "j < length (page_nodes q)"
    and "\<not> stops w 0 (concat (map page_nodes qs) @ take j (page_nodes q))"
    and "RowsRemaining w (length (concat (map page_nodes qs)) + Suc j) = 0"
  shows "\<exists>r. tableGitHubRepositoryIssueCommentList w d = Some r
           \<and> ret_error r = None \<and> ret_value r = None
           \<and> calls (trace r) = map (call_vars (initial_variables w d) qs) [0..<Suc (length qs)]
           \<and> fetched w 0 (calls (trace r)) = qs @ [q]
           \<and> streamed (trace r) = concat (map page_nodes qs) @ take (Suc j) (page_nodes q)
           \<and> length (streamed (trace r)) = length (concat (map page_nodes qs)) + Suc j"
proof -
  let ?cs = "map (call_vars (initial_variables w d) qs) [0..<Suc (length qs)]"
  have run: "tableGitHubRepositoryIssueCommentList w d =
           Some \<lparr>trace =
                   \<lparr>calls = ?cs,
                    streamed = concat (map page_nodes qs) @ take (Suc j) (page_nodes q)\<rparr>,
                 ret_value = None, ret_error = None\<rparr>"
    by (rule list_stop_at [OF assms])
  have "\<forall>i<length (qs @ [q]). Query w i (?cs ! i) = Inr ((qs @ [q]) ! i)"
  proof (intro allI impI)
    fix i assume "i < length (qs @ [q])"
    then consider "i < length qs" | "i = length qs" by fastforce
    then show "Query w i (?cs ! i) = Inr ((qs @ [q]) ! i)"
    proof cases
      case 1
      with assms(1) show ?thesis
        by (simp add: nth_append del: upt_Suc)
    next
      case 2
      with assms(2) show ?thesis
        by (simp add: nth_append del: upt_Suc)
    qed
  qed
  then have "fetched w 0 ?cs = qs @ [q]"
    by (intro fetched_all) simp_all
  with run assms(3) show ?thesis
    by (simp del: upt_Suc)
qed

theorem budget_stop_is_normal_exit_witness:
  "RowsRemaining budget_world 3 = 0
   \<and> (\<exists>r. tableGitHubRepositoryIssueCommentList budget_world demo_data = Some r
         \<and> ret_error r = None \<and> ret_value r = None
         \<and> calls (trace r) =
             [initial_variables budget_world demo_data,
              (initial_variables budget_world demo_data)
                (''cursor'' \<mapsto> GStringPtr (Some ''c1''))]
         \<and> streamed (trace r) = [11, 12, 13])"
proof -
  let ?v0 = "initial_variables budget_world demo_data"
  let ?qs = "[mk_page [11, 12 :: nat] True ''c1'']"
  let ?q = "mk_page [13, 14 :: nat] True ''c2''"
  have pages: "\<forall>i<length ?qs. Query budget_world i (call_vars ?v0 ?qs i) = Inr (?qs ! i)
             \<and> HasNextPage (page_info (?qs ! i))"
    by (simp add: world_defs)
  have page: "Query budget_world (length ?qs) (call_vars ?v0 ?qs (length ?qs)) = Inr ?q"
    by (simp add: world_defs)
  have j: "0 < length (page_nodes ?q)"
    by (simp add: mk_page_def)
  have before: "\<not> stops budget_world 0 (concat (map page_nodes ?qs) @ take 0 (page_nodes ?q))"
    by (simp add: world_defs)
  have stop: "RowsRemaining budget_world (length (concat (map page_nodes ?qs)) + Suc 0) = 0"
    by (simp add: world_defs)
  have stop3: "RowsRemaining budget_world 3 = 0"
    by (simp add: world_defs)
  from budget_stop_is_normal_exit [OF pages page j before stop]
  obtain r where "tableGitHubRepositoryIssueCommentList budget_world demo_data = Some r"
    "ret_error r = None" "ret_value r = None"
    "calls (trace r) = map (call_vars ?v0 ?qs) [0..<Suc (length ?qs)]"
    "streamed (trace r) = concat (map page_nodes ?qs) @ take (Suc 0) (page_nodes ?q)"
    by blast
  with stop3 show ?thesis
    by (simp add: mk_page_def call_vars_def)
qed

text \<open>
  C5. If the first fetched page reports \<^verbatim>\<open>hasNextPage = false\<close>, the fetch makes
  exactly one remote call and then returns without an error, whatever the row
  budget is.
\<close>

theorem single_page_single_call:
  assumes "Query w 0 (initial_variables w d) = Inr q"
    and "\<not> HasNextPage (page_info q)"
  shows "\<exists>r. tableGitHubRepositoryIssueCommentList w d = Some r
           \<and> calls (trace r) = [initial_variables w d]
           \<and> streamed (trace r) = upto_stop w 0 (page_nodes q)
           \<and> ret_value r = None \<and> ret_error r = None"
proof (cases "stops w 0 (page_nodes q)")
  case True
  with fetch_loop_stop [of w "\<lparr>calls = [], streamed = []\<rparr>" "initial_variables w d" q] assms(1)
  show ?thesis
    by (simp add: tableGitHubRepositoryIssueCommentList_def)
next
  case False
  with fetch_loop_last [of w "\<lparr>calls = [], streamed = []\<rparr>" "initial_variables w d" q] assms
  show ?thesis
    by (simp add: tableGitHubRepositoryIssueCommentList_def upto_stop_id)
qed

theorem single_page_single_call_witness:
  "\<exists>r. tableGitHubRepositoryIssueCommentList single_world demo_data = Some r
     \<and> calls (trace r) = [initial_variables single_world demo_data]
     \<and> streamed (trace r) = [21, 22]
     \<and> ret_value r = None \<and> ret_error r = None"
proof -
  let ?q = "mk_page [21, 22 :: nat] False ''c9''"
  have page: "Query single_world 0 (initial_variables single_world demo_data) = Inr ?q"
    by (simp add: single_world_def)
  have last: "\<not> HasNextPage (page_info ?q)"
    by (simp add: mk_page_def)
  from single_page_single_call [OF page last] show ?thesis
    by (simp add: world_defs)
qed

text \<open>
  C6. For every requested limit, the page size sent to the remote API, in the first
  call and in every later one, is at least 1 and at most the maximum of 100; a
  requested size of 0 or less is clamped to 1 and so is never forwarded as it is.
\<close>

theorem page_size_within_bounds:
  "\<exists>p. initial_variables w d ''pageSize'' = Some (GInt p)
      \<and> p = adjustPageSize 100 (Limit d) \<and> 1 \<le> p \<and> p \<le> 100
      \<and> (\<forall>l. Limit d = Some l \<and> l \<le> 0 \<longrightarrow> p = 1 \<and> p \<noteq> l)
      \<and> (\<forall>r v. tableGitHubRepositoryIssueCommentList w d = Some r \<and> v \<in> set (calls (trace r))
            \<longrightarrow> v ''pageSize'' = Some (GInt p))"
proof -
  let ?p = "adjustPageSize 100 (Limit d)"
  have "1 \<le> ?p \<and> ?p \<le> 100"
    by (rule adjustPageSize_range) simp
  moreover have "\<forall>l. Limit d = Some l \<and> l \<le> 0 \<longrightarrow> ?p = 1 \<and> ?p \<noteq> l"
    by (auto simp: adjustPageSize_def)
  moreover have "\<forall>r v. tableGitHubRepositoryIssueCommentList w d = Some r \<and> v \<in> set (calls (trace r))
            \<longrightarrow> v ''pageSize'' = Some (GInt ?p)"
    using list_frame [of w d _ _ "''pageSize''"] by (auto simp: initial_pageSize)
  ultimately show ?thesis
    using initial_pageSize [of w d] by blast
qed

theorem page_size_within_bounds_witness:
  "Limit zero_limit_data = Some 0
   \<and> initial_variables demo_world zero_limit_data ''pageSize'' = Some (GInt 1)
   \<and> ((initial_variables demo_world zero_limit_data)
         (''cursor'' \<mapsto> GStringPtr (Some ''c1''))) ''pageSize'' = Some (GInt 1)"
proof -
  have lim: "Limit zero_limit_data = Some 0"
    by (simp add: zero_limit_data_def demo_data_def)
  from page_size_within_bounds [of demo_world zero_limit_data]
  obtain p where p: "initial_variables demo_world zero_limit_data ''pageSize'' = Some (GInt p)"
    and clamp: "\<forall>l. Limit zero_limit_data = Some l \<and> l \<le> 0 \<longrightarrow> p = 1 \<and> p \<noteq> l"
    and every: "\<forall>r v. tableGitHubRepositoryIssueCommentList demo_world zero_limit_data = Some r
                  \<and> v \<in> set (calls (trace r)) \<longrightarrow> v ''pageSize'' = Some (GInt p)"
    by blast
  from clamp lim have "p = 1" by simp
  moreover from every zero_limit_run
  have "((initial_variables demo_world zero_limit_data)
         (''cursor'' \<mapsto> GStringPtr (Some ''c1''))) ''pageSize'' = Some (GInt p)"
    by simp
  ultimately show ?thesis using lim p by simp
qed

text \<open>
  C7 (as the spec states it). Between any two consecutive page fetches the loop
  checks for cancellation of its context and, if cancelled, terminates promptly with
  a cancellation error rather than issuing the next remote call.

  The code does not do that. In \<open>cancelled_world\<close> the context is cancelled once the
  first record has been streamed, between the first page fetch and what would be
  the second: the loop returns \<^verbatim>\<open>nil, nil\<close>, a normal return with no error.
\<close>

theorem cancellation_returns_no_error:
  "HasNextPage (page_info (mk_page [11, 12 :: nat] True ''c1''))
   \<and> Query cancelled_world 0 (initial_variables cancelled_world demo_data)
       = Inr (mk_page [11, 12] True ''c1'')
   \<and> ctxCancelled cancelled_world 1
   \<and> tableGitHubRepositoryIssueCommentList cancelled_world demo_data =
       Some \<lparr>trace = \<lparr>calls = [initial_variables cancelled_world demo_data], streamed = [11]\<rparr>,
             ret_value = None, ret_error = None\<rparr>"
  by (simp add: cancelled_run) (simp add: world_defs)

text \<open>
  C7 (amended). The loop learns of a cancellation through \<^verbatim>\<open>RowsRemaining\<close>, which
  it asks after each streamed record: if the context is cancelled at that moment,
  the fetch terminates at once without issuing the next remote call, and it returns
  a nil error (the normal return of the early exit), not a cancellation error.
\<close>

theorem cancellation_stops_without_error:
  assumes "\<forall>i<length qs. Query w i (call_vars (initial_variables w d) qs i) = Inr (qs ! i)
             \<and> HasNextPage (page_info (qs ! i))"
    and "Query w (length qs) (call_vars (initial_variables w d) qs (length qs)) = Inr q"
    and "j < length (page_nodes q)"
    and "\<not> stops w 0 (concat (map page_nodes qs) @ take j (page_nodes q))"
    and "ctxCancelled w (length (concat (map page_nodes qs)) + Suc j)"
  shows "tableGitHubRepositoryIssueCommentList w d =
           Some \<lparr>trace =
                   \<lparr>calls = map (call_vars (initial_variables w d) qs) [0..<Suc (length qs)],
                    streamed = concat (map page_nodes qs) @ take (Suc j) (page_nodes q)\<rparr>,
                 ret_value = None, ret_error = None\<rparr>"
proof -
  from assms(5) have "RowsRemaining w (length (concat (map page_nodes qs)) + Suc j) = 0"
    by (simp add: RowsRemaining_def)
  with assms(1-4) show ?thesis
    by (rule list_stop_at)
qed

theorem cancellation_stops_without_error_witness:
  "ctxCancelled late_cancel_world 3
   \<and> tableGitHubRepositoryIssueCommentList late_cancel_world demo_data =
     Some \<lparr>trace = \<lparr>calls = [initial_variables late_cancel_world demo_data,
                              (initial_variables late_cancel_world demo_data)
                                (''cursor'' \<mapsto> GStringPtr (Some ''c1''))],
                     streamed = [11, 12, 13]\<rparr>,
           ret_value = None, ret_error = None\<rparr>"
proof -
  let ?w = late_cancel_world
  let ?v0 = "initial_variables ?w demo_data"
  let ?qs = "[mk_page [11, 12 :: nat] True ''c1'']"
  let ?q = "mk_page [13, 14 :: nat] True ''c2''"
  have pages: "\<forall>i<length ?qs. Query ?w i (call_vars ?v0 ?qs i) = Inr (?qs ! i)
             \<and> HasNextPage (page_info (?qs ! i))"
    by (simp add: world_defs)
  have page: "Query ?w (length ?qs) (call_vars ?v0 ?qs (length ?qs)) = Inr ?q"
    by (simp add: world_defs)
  have j: "0 < length (page_nodes ?q)"
    by (simp add: mk_page_def)
  have before: "\<not> stops ?w 0 (concat (map page_nodes ?qs) @ take 0 (page_nodes ?q))"
    by (simp add: world_defs)
  have cancelled: "ctxCancelled ?w (length (concat (map page_nodes ?qs)) + Suc 0)"
    by (simp add: world_defs)
  have c3: "ctxCancelled ?w 3"
    by (simp add: world_defs)
  from cancellation_stops_without_error [OF pages page j before cancelled] c3 show ?thesis
    by (simp add: mk_page_def call_vars_def)
qed

text \<open>
  The check is made after a record, not between fetches as such: a page without
  records that reports a next page is followed by the next remote call, whatever the
  state of the context. An error is only ever the answer of a remote call.
\<close>

lemma empty_page_no_check:
  assumes "Query w 0 (initial_variables w d) = Inr q"
    and "page_nodes q = []" and "HasNextPage (page_info q)"
    and "Query w 1 ((initial_variables w d)
           (''cursor'' \<mapsto> GStringPtr (Some (EndCursor (page_info q))))) = Inl e"
  shows "tableGitHubRepositoryIssueCommentList w d =
           Some \<lparr>trace =
                   \<lparr>calls = [initial_variables w d,
                             (initial_variables w d)
                               (''cursor'' \<mapsto> GStringPtr (Some (EndCursor (page_info q))))],
                    streamed = []\<rparr>,
                 ret_value = None, ret_error = Some e\<rparr>"
proof -
  let ?v0 = "initial_variables w d"
  let ?v1 = "?v0(''cursor'' \<mapsto> GStringPtr (Some (EndCursor (page_info q))))"
  have "fetch_loop w \<lparr>calls = [], streamed = []\<rparr> ?v0
          = fetch_loop w \<lparr>calls = [?v0], streamed = []\<rparr> ?v1"
    using fetch_loop_next [of w "\<lparr>calls = [], streamed = []\<rparr>" ?v0 q] assms(1-3) by simp
  also have "\<dots> = Some \<lparr>trace = \<lparr>calls = [?v0, ?v1], streamed = []\<rparr>,
                 ret_value = None, ret_error = Some e\<rparr>"
    using fetch_loop_error [of w "\<lparr>calls = [?v0], streamed = []\<rparr>" ?v1 e] assms(4) by simp
  finally show ?thesis
    by (simp add: tableGitHubRepositoryIssueCommentList_def)
qed

text \<open>
  C8. When the remote API reports that the parent scope does not exist (an error
  that the table's \<^verbatim>\<open>ShouldIgnoreError\<close> policy, \<^verbatim>\<open>isNotFoundError\<close> of \<^verbatim>\<open>404\<close>,
  accepts), the table produces an empty result and no error.
\<close>

theorem not_found_is_empty_result:
  assumes "Query w 0 (initial_variables w d) = Inl e"
    and "isNotFoundError w [''404''] e"
  shows "host_list (tableGitHubIssueComment w) w d = Some ([], None)"
  using fetch_loop_error [of w "\<lparr>calls = [], streamed = []\<rparr>" "initial_variables w d" e] assms
  by (simp add: host_list_def tableGitHubIssueComment_def tableGitHubRepositoryIssueCommentList_def)

theorem not_found_is_empty_result_witness:
  "Query missing_world 0 (initial_variables missing_world demo_data) = Inl (Error ''404'')
   \<and> host_list (tableGitHubIssueComment missing_world) missing_world demo_data = Some ([], None)"
proof -
  have q: "Query missing_world 0 (initial_variables missing_world demo_data) = Inl (Error ''404'')"
    by (simp add: missing_world_def)
  have nf: "isNotFoundError missing_world [''404''] (Error ''404'')"
    by (simp add: missing_world_def demo_world_def)
  from not_found_is_empty_result [OF q nf] q show ?thesis by simp
qed

text \<open>
  C9. Across all iterations of the loop for one request only the \<^verbatim>\<open>cursor\<close> entry
  of the variables is reassigned: in every remote call of the request the owner, the
  repository name, the issue number and the page size, and every other entry but
  the cursor, are those of the initial variables.
\<close>

theorem only_cursor_reassigned:
  assumes "tableGitHubRepositoryIssueCommentList w d = Some r"
    and "v \<in> set (calls (trace r))"
  shows "(\<forall>k. k \<noteq> ''cursor'' \<longrightarrow> v k = initial_variables w d k)
         \<and> v ''owner'' = Some (GString (fst (parseRepoFullName w
               (GetStringValue (EqualsQuals d ''repository_full_name'')))))
         \<and> v ''name'' = Some (GString (snd (parseRepoFullName w
               (GetStringValue (EqualsQuals d ''repository_full_name'')))))
         \<and> v ''issueNumber'' = Some (githubv4_Int (GetInt64Value (EqualsQuals d ''number'')))
         \<and> v ''pageSize'' = Some (githubv4_Int (adjustPageSize 100 (Limit d)))"
proof -
  have frame: "\<forall>k. k \<noteq> ''cursor'' \<longrightarrow> v k = initial_variables w d k"
    using list_frame [OF assms] by blast
  have "initial_variables w d ''owner'' = Some (GString (fst (parseRepoFullName w
               (GetStringValue (EqualsQuals d ''repository_full_name'')))))"
    "initial_variables w d ''name'' = Some (GString (snd (parseRepoFullName w
               (GetStringValue (EqualsQuals d ''repository_full_name'')))))"
    "initial_variables w d ''issueNumber'' = Some (githubv4_Int (GetInt64Value (EqualsQuals d ''number'')))"
    "initial_variables w d ''pageSize'' = Some (githubv4_Int (adjustPageSize 100 (Limit d)))"
    by (simp_all add: initial_variables_def Let_def split: prod.splits)
  with frame show ?thesis by simp
qed

theorem only_cursor_reassigned_witness:
  "tableGitHubRepositoryIssueCommentList demo_world demo_data =
     Some \<lparr>trace = \<lparr>calls = [initial_variables demo_world demo_data,
                              (initial_variables demo_world demo_data)
                                (''cursor'' \<mapsto> GStringPtr (Some ''c1''))],
                     streamed = [11, 12, 13, 14]\<rparr>,
           ret_value = None, ret_error = None\<rparr>
   \<and> ((initial_variables demo_world demo_data)(''cursor'' \<mapsto> GStringPtr (Some ''c1'')))
        ''owner'' = Some (GString ''octo'')
   \<and> ((initial_variables demo_world demo_data)(''cursor'' \<mapsto> GStringPtr (Some ''c1'')))
        ''name'' = Some (GString ''demo'')
   \<and> ((initial_variables demo_world demo_data)(''cursor'' \<mapsto> GStringPtr (Some ''c1'')))
        ''issueNumber'' = Some (GInt 7)
   \<and> ((initial_variables demo_world demo_data)(''cursor'' \<mapsto> GStringPtr (Some ''c1'')))
        ''pageSize'' = Some (GInt 100)"
proof -
  let ?v1 = "(initial_variables demo_world demo_data)(''cursor'' \<mapsto> GStringPtr (Some ''c1''))"
  have mem: "?v1 \<in> set (calls (trace
     \<lparr>trace = \<lparr>calls = [initial_variables demo_world demo_data, ?v1],
                streamed = [11, 12, 13, 14 :: nat]\<rparr>,
      ret_value = None, ret_error = None\<rparr>))"
    by simp
  from only_cursor_reassigned [OF demo_run mem] demo_run show ?thesis
    by (simp add: demo_world_def demo_data_def adjustPageSize_def githubv4_Int_def)
qed

text \<open>
  C10. On every exit path (the pages exhausted, the early stop on the consumer's
  signal, a remote error) the list function returns nil as its result value: the
  records reach the caller through the streaming callback alone.
\<close>

theorem list_returns_nil_value:
  assumes "tableGitHubRepositoryIssueCommentList w d = Some r"
  shows "ret_value r = None"
  using assms unfolding tableGitHubRepositoryIssueCommentList_def
  by (rule fetch_loop_value)

theorem list_returns_nil_value_witness:
  "(\<exists>r. tableGitHubRepositoryIssueCommentList demo_world demo_data = Some r
       \<and> streamed (trace r) = [11, 12, 13, 14] \<and> ret_error r = None \<and> ret_value r = None)
   \<and> (\<exists>r. tableGitHubRepositoryIssueCommentList budget_world demo_data = Some r
       \<and> streamed (trace r) = [11, 12, 13] \<and> ret_error r = None \<and> ret_value r = None)
   \<and> (\<exists>r. tableGitHubRepositoryIssueCommentList failing_world demo_data = Some r
       \<and> streamed (trace r) = [11, 12] \<and> ret_error r = Some (Error ''502'')
       \<and> ret_value r = None)"
  using list_returns_nil_value [OF demo_run] list_returns_nil_value [OF budget_run]
    list_returns_nil_value [OF failing_run]
  by (simp add: demo_run budget_run failing_run)

end
